theory Spec2Isabelle
  imports Main
begin

section \<open>Python strings\<close>

text \<open>
  A Python \<open>str\<close> is a sequence of Unicode code points, and \<open>len\<close> counts code points.
  A character is therefore modelled by its code point, a natural number, and a string by
  the list of its code points. The function \<open>str\<close> turns an ASCII literal into that
  representation.
\<close>

type_synonym pystr = "nat list"

definition str :: "string \<Rightarrow> pystr" where
  "str s = map of_char s"

text \<open>
  \<open>str.isspace\<close>, \<open>str.strip()\<close> and \<open>str.split()\<close> share one notion of whitespace:
  the code points U+0009..U+000D, U+001C..U+0020, U+0085, U+00A0, U+1680,
  U+2000..U+200A, U+2028, U+2029, U+202F, U+205F and U+3000.
\<close>

definition isspace :: "nat \<Rightarrow> bool" where
  "isspace c \<longleftrightarrow>
     (9 \<le> c \<and> c \<le> 13) \<or> (28 \<le> c \<and> c \<le> 32) \<or> c = 133 \<or> c = 160 \<or> c = 5760 \<or>
     (8192 \<le> c \<and> c \<le> 8202) \<or> c = 8232 \<or> c = 8233 \<or> c = 8239 \<or> c = 8287 \<or> c = 12288"

text \<open>\<open>s.strip()\<close>: leading and trailing whitespace removed.\<close>

definition strip :: "pystr \<Rightarrow> pystr" where
  "strip s = rev (dropWhile isspace (rev (dropWhile isspace s)))"

text \<open>
  Slices \<open>s[:k]\<close> and \<open>s[k:]\<close>. A negative bound counts from the end of the string and
  is clamped at the start of the string.
\<close>

definition slice_to :: "pystr \<Rightarrow> int \<Rightarrow> pystr" where
  "slice_to s k = (if k < 0 then take (nat (int (length s) + k)) s else take (nat k) s)"

definition slice_from :: "pystr \<Rightarrow> int \<Rightarrow> pystr" where
  "slice_from s k = (if k < 0 then drop (nat (int (length s) + k)) s else drop (nat k) s)"

text \<open>
  \<open>s.rfind(sub, start, stop)\<close>: the highest index \<open>i\<close> such that \<open>sub\<close> occupies
  \<open>s[i : i + len(sub)]\<close> inside \<open>s[start:stop]\<close>, or \<open>-1\<close>. The bounds are adjusted as
  slice bounds are: \<open>stop\<close> is cut down to the length, and a negative bound has the length
  added and is then clamped at \<open>0\<close>.
\<close>

definition rfind :: "pystr \<Rightarrow> pystr \<Rightarrow> int \<Rightarrow> int \<Rightarrow> int" where
  "rfind s sub start stop =
     (let n = int (length s);
          e = (if stop > n then n else if stop < 0 then max 0 (stop + n) else stop);
          b = (if start < 0 then max 0 (start + n) else start);
          m = int (length sub)
      in if e - b < m then - 1
         else (case filter (\<lambda>i. take (length sub) (drop i s) = sub)
                      (rev [nat b ..< Suc (nat (e - m))]) of
                 [] \<Rightarrow> - 1
               | i # _ \<Rightarrow> int i))"

section \<open>Pagination (\<open>pagify\<close> in \<open>dev.py\<close>)\<close>

datatype error = ValueError | KeyError | RuntimeError | AssertionError

text \<open>
  The delimiter search of one loop iteration. The generator expression computes
  \<open>in_text.rfind(d, 1, this_page_len)\<close> for every delimiter. In priority mode the first
  result greater than \<open>0\<close> is taken, with \<open>-1\<close> as the default of \<open>next\<close>; otherwise
  \<open>max\<close> is taken, which raises \<open>ValueError\<close> on an empty sequence.
\<close>

definition closest_delim :: "pystr list \<Rightarrow> bool \<Rightarrow> pystr \<Rightarrow> int \<Rightarrow> error + int" where
  "closest_delim delims priority in_text this_page_len =
     (let found = map (\<lambda>d. rfind in_text d 1 this_page_len) delims
      in if priority then
           Inr (case filter (\<lambda>x. x > 0) found of [] \<Rightarrow> - 1 | x # _ \<Rightarrow> x)
         else if found = [] then Inl ValueError
         else Inr (Max (set found)))"

text \<open>
  The body of the \<open>while\<close> loop: the split point is the delimiter found, or the page
  length when the search gave \<open>-1\<close>. The result is the chunk yielded by this iteration
  (if its stripped form is not empty) and the new value of \<open>in_text\<close>.
\<close>

definition pagify_body :: "pystr list \<Rightarrow> bool \<Rightarrow> int \<Rightarrow> pystr \<Rightarrow> error + (pystr option \<times> pystr)" where
  "pagify_body delims priority page_length in_text =
     (let this_page_len = page_length
      in case closest_delim delims priority in_text this_page_len of
           Inl e \<Rightarrow> Inl e
         | Inr found \<Rightarrow>
             (let closest = (if found \<noteq> - 1 then found else this_page_len);
                  to_send = slice_to in_text closest
              in Inr (if length (strip to_send) > 0 then Some to_send else None,
                      slice_from in_text closest)))"

text \<open>
  The generator is run to a bounded number of loop-condition tests (the fuel). The result
  is the list of chunks yielded so far, in order, and how the run stands: the generator
  is exhausted, it raised, or it is still running when the fuel is used up. A chunk is
  recorded as soon as it is yielded, as the consumer of the lazy generator sees it.
\<close>

datatype status = Exhausted | Raised error | Running

fun pagify_loop :: "nat \<Rightarrow> pystr list \<Rightarrow> bool \<Rightarrow> int \<Rightarrow> pystr \<Rightarrow> pystr list \<times> status" where
  "pagify_loop 0 delims priority page_length in_text = ([], Running)"
| "pagify_loop (Suc fuel) delims priority page_length in_text =
     (if int (length in_text) > page_length then
        (case pagify_body delims priority page_length in_text of
           Inl e \<Rightarrow> ([], Raised e)
         | Inr (chunk, rest) \<Rightarrow>
             (let (pages, st) = pagify_loop fuel delims priority page_length rest
              in (case chunk of None \<Rightarrow> pages | Some to_send \<Rightarrow> to_send # pages, st)))
      else (if length (strip in_text) > 0 then [in_text] else [], Exhausted))"

text \<open>\<open>pagify(text, delims, priority=..., shorten_by=..., page_length=...)\<close>.\<close>

definition pagify :: "nat \<Rightarrow> pystr \<Rightarrow> pystr list \<Rightarrow> bool \<Rightarrow> int \<Rightarrow> int \<Rightarrow> pystr list \<times> status" where
  "pagify fuel text delims priority shorten_by page_length =
     pagify_loop fuel delims priority (page_length - shorten_by) text"

text \<open>The text of the example: \<open>a\<close> and a newline, 2000 times.\<close>

definition newline_text :: pystr where
  "newline_text = concat (replicate 2000 (str ''a'' @ [10]))"

text \<open>The segments the loop walks through: every \<open>to_send\<close> and the final leftover,
  whether yielded or skipped. This is the same loop with the blank test left out.\<close>

fun pagify_segments :: "nat \<Rightarrow> pystr list \<Rightarrow> bool \<Rightarrow> int \<Rightarrow> pystr \<Rightarrow> pystr list" where
  "pagify_segments 0 delims priority page_length in_text = []"
| "pagify_segments (Suc fuel) delims priority page_length in_text =
     (if int (length in_text) > page_length then
        (case closest_delim delims priority in_text page_length of
           Inl e \<Rightarrow> []
         | Inr found \<Rightarrow>
             (let closest = (if found \<noteq> - 1 then found else page_length)
              in slice_to in_text closest #
                 pagify_segments fuel delims priority page_length (slice_from in_text closest)))
      else [in_text])"


section \<open>Further string operations\<close>

text \<open>
  \<open>s.split(maxsplit=m)\<close> without a separator, as a scan from left to right: runs of
  whitespace separate the items, at most \<open>m\<close> splits are made (\<open>None\<close> is no limit) and,
  once no split is left, the remainder from the next non-blank character on is the last
  item as it stands. The second argument is the item being read, reversed; it is empty
  between items.
\<close>

fun split_scan :: "nat option \<Rightarrow> pystr \<Rightarrow> pystr \<Rightarrow> pystr list" where
  "split_scan m cur [] = (if cur = [] then [] else [rev cur])"
| "split_scan m cur (c # cs) =
     (if cur = [] then
        (if isspace c then split_scan m [] cs
         else if m = Some 0 then [c # cs]
         else split_scan m [c] cs)
      else
        (if isspace c then rev cur # split_scan (map_option (\<lambda>k. k - 1) m) [] cs
         else split_scan m (c # cur) cs))"

definition split :: "pystr \<Rightarrow> nat option \<Rightarrow> pystr list" where
  "split s maxsplit = split_scan maxsplit [] s"

text \<open>\<open>s.strip(chars)\<close>: the characters of \<open>chars\<close> removed from both ends.\<close>

definition strip_chars :: "pystr \<Rightarrow> pystr \<Rightarrow> pystr" where
  "strip_chars s chars =
     rev (dropWhile (\<lambda>c. c \<in> set chars) (rev (dropWhile (\<lambda>c. c \<in> set chars) s)))"

definition startswith :: "pystr \<Rightarrow> pystr \<Rightarrow> bool" where
  "startswith s p \<longleftrightarrow> take (length p) s = p"

definition endswith :: "pystr \<Rightarrow> pystr \<Rightarrow> bool" where
  "endswith s p \<longleftrightarrow> length p \<le> length s \<and> drop (length s - length p) s = p"

text \<open>
  \<open>s.splitlines(True)\<close>: the lines of \<open>s\<close> with their line ends kept. A line ends at
  \<open>\n\<close>, \<open>\r\<close>, \<open>\r\n\<close>, \<open>\v\<close>, \<open>\f\<close>, U+001C..U+001E, U+0085, U+2028 or U+2029.
\<close>

definition is_linebreak :: "nat \<Rightarrow> bool" where
  "is_linebreak c \<longleftrightarrow>
     (10 \<le> c \<and> c \<le> 13) \<or> (28 \<le> c \<and> c \<le> 30) \<or> c = 133 \<or> c = 8232 \<or> c = 8233"

fun splitlines_scan :: "pystr \<Rightarrow> pystr \<Rightarrow> pystr list" where
  "splitlines_scan cur [] = (if cur = [] then [] else [rev cur])"
| "splitlines_scan cur [c] = [rev (c # cur)]"
| "splitlines_scan cur (c # d # cs) =
     (if c = 13 \<and> d = 10 then rev (d # c # cur) # splitlines_scan [] cs
      else if is_linebreak c then rev (c # cur) # splitlines_scan [] (d # cs)
      else splitlines_scan (c # cur) (d # cs))"

text \<open>\<open>textwrap.indent(text, prefix)\<close>: the prefix is put before every line that does not
  consist of whitespace only.\<close>

definition indent :: "pystr \<Rightarrow> pystr \<Rightarrow> pystr" where
  "indent text prefix =
     concat (map (\<lambda>line. if strip line \<noteq> [] then prefix @ line else line)
                 (splitlines_scan [] text))"

text \<open>
  \<open>re.sub(re.escape(pattern), repl, string, count)\<close> with flags \<open>0\<close>: the escaped pattern
  matches the literal text \<open>pattern\<close>, case-sensitively. The leftmost non-overlapping
  occurrences are replaced from left to right; \<open>count\<close> is the greatest number of
  replacements, and \<open>0\<close> means no limit. The limit that is left is carried as an option
  (\<open>None\<close>: no limit). An empty pattern matches before every character and at the end.
\<close>

function sub_scan :: "pystr \<Rightarrow> pystr \<Rightarrow> nat option \<Rightarrow> pystr \<Rightarrow> pystr" where
  "sub_scan pat repl lim [] = (if pat = [] \<and> lim \<noteq> Some 0 then repl else [])"
| "sub_scan pat repl lim (c # cs) =
     (if lim = Some 0 then c # cs
      else if pat = [] then repl @ c # sub_scan pat repl (map_option (\<lambda>k. k - 1) lim) cs
      else if take (length pat) (c # cs) = pat then
        repl @ sub_scan pat repl (map_option (\<lambda>k. k - 1) lim) (drop (length pat) (c # cs))
      else c # sub_scan pat repl lim cs)"
  by pat_completeness auto
termination
  by (relation "measure (\<lambda>(pat, repl, lim, s). length s)") auto

definition re_sub_escaped :: "pystr \<Rightarrow> pystr \<Rightarrow> pystr \<Rightarrow> nat \<Rightarrow> pystr" where
  "re_sub_escaped pattern repl string count =
     sub_scan pattern repl (if count = 0 then None else Some count) string"

text \<open>The flag \<open>re.I\<close> (\<open>re.IGNORECASE\<close>) is the integer \<open>2\<close>.\<close>

definition re_I :: nat where
  "re_I = 2"

section \<open>The developer console (\<open>Dev\<close> in \<open>dev.py\<close>)\<close>

text \<open>
  Python values, as far as the console looks at them: \<open>None\<close>, an object that is not
  awaitable, and an awaitable. Each carries the text \<open>str()\<close> gives for it; an awaitable
  also carries what awaiting it does: it returns a value, raises, or never finishes.
  An exception is a \<open>SyntaxError\<close> (with the fields \<open>get_syntax_error\<close> reads), another
  \<open>Exception\<close>, or a \<open>BaseException\<close> outside \<open>Exception\<close>; each carries the text
  \<open>traceback.format_exc()\<close> gives while it is handled.
\<close>

datatype syntax_error =
  SyntaxErr (se_name: pystr) (se_text: "pystr option") (se_offset: nat) (se_str: pystr)

datatype exc =
  SyntaxError syntax_error pystr
| Exception pystr
| BaseException pystr

datatype pyval = PyNone | PyObj pystr | PyAwaitable pystr outcome
and outcome = Returns pyval | Raises exc | Never

fun py_str :: "pyval \<Rightarrow> pystr" where
  "py_str PyNone = str ''None''"
| "py_str (PyObj r) = r"
| "py_str (PyAwaitable r oc) = r"

fun isawaitable :: "pyval \<Rightarrow> bool" where
  "isawaitable (PyAwaitable r oc) = True"
| "isawaitable v = False"

fun format_exc :: "exc \<Rightarrow> pystr" where
  "format_exc (SyntaxError e tb) = tb"
| "format_exc (Exception tb) = tb"
| "format_exc (BaseException tb) = tb"

text \<open>
  \<open>maybe_await\<close>: the loop \<open>for i in range(2)\<close>, by the number of iterations left. An
  awaitable is awaited and the loop goes on with its result; anything else is returned at
  once; after the last iteration the value is returned as it is.
\<close>

fun maybe_await_loop :: "nat \<Rightarrow> pyval \<Rightarrow> outcome" where
  "maybe_await_loop 0 coro = Returns coro"
| "maybe_await_loop (Suc i) coro =
     (case coro of
        PyAwaitable r oc \<Rightarrow>
          (case oc of Returns v \<Rightarrow> maybe_await_loop i v | Raises e \<Rightarrow> Raises e | Never \<Rightarrow> Never)
      | _ \<Rightarrow> Returns coro)"

definition maybe_await :: "pyval \<Rightarrow> outcome" where
  "maybe_await coro = maybe_await_loop 2 coro"

text \<open>\<open>cleanup_code\<close>. The pattern \<open>START_CODE_BLOCK_RE\<close> matches, at the start of the
  text only, three backticks followed by \<open>py\<close> or \<open>python\<close> when whitespace comes next, and
  three backticks otherwise; the longer alternative is tried first.\<close>

definition backticks :: pystr where
  "backticks = [96, 96, 96]"

definition START_CODE_BLOCK_RE_sub :: "pystr \<Rightarrow> pystr" where
  "START_CODE_BLOCK_RE_sub content =
     (let python = backticks @ str ''python''; py = backticks @ str ''py''
      in if startswith content python \<and> drop (length python) content \<noteq> [] \<and>
            isspace (hd (drop (length python) content))
         then drop (length python) content
         else if startswith content py \<and> drop (length py) content \<noteq> [] \<and>
            isspace (hd (drop (length py) content))
         then drop (length py) content
         else if startswith content backticks then drop 3 content
         else content)"

definition cleanup_code :: "pystr \<Rightarrow> pystr" where
  "cleanup_code content =
     (if startswith content backticks \<and> endswith content backticks
      then slice_to (START_CODE_BLOCK_RE_sub content) (- 3)
      else strip_chars content [96, 32, 10])"

text \<open>\<open>get_syntax_error\<close>. The caret is right-aligned in a field of \<open>e.offset\<close>
  characters.\<close>

definition get_syntax_error :: "syntax_error \<Rightarrow> pystr" where
  "get_syntax_error e =
     (case se_text e of
        None \<Rightarrow> se_name e @ str '': '' @ se_str e
      | Some t \<Rightarrow>
          t @ [10] @ replicate (se_offset e - 1) 32 @ str ''^'' @ [10] @
          se_name e @ str '': '' @ se_str e)"

text \<open>\<open>sanitize_output\<close>. The fourth positional parameter of \<open>re.sub\<close> is \<open>count\<close>, so
  the call passes \<open>re.I\<close> as the count and leaves the flags at \<open>0\<close>.\<close>

record authentication_data =
  token :: "pystr option"
  session_token :: "pystr option"

definition sanitize_output :: "authentication_data \<Rightarrow> pystr \<Rightarrow> error + pystr" where
  "sanitize_output auth_data input =
     (case (if token auth_data = None then session_token auth_data else token auth_data) of
        None \<Rightarrow> Inl AssertionError
      | Some tok \<Rightarrow> Inr (re_sub_escaped tok (str ''[EXPUNGED]'') input re_I))"

text \<open>
  The state a handler works on: the stored last result and, in order, what has been
  done on the connection. \<open>send\<close> (in \<open>__main__.py\<close>) posts the content between two
  U+1F603 glyphs; the nonce of the request is left out of the record. The REST call and
  \<open>client.close()\<close> belong to the client library and are taken to return normally.
\<close>

datatype action = Send pystr pystr | Close

record dev_state =
  last_result :: pyval
  actions :: "action list"

definition smiley :: pystr where
  "smiley = [128515]"

definition send :: "pystr \<Rightarrow> pystr \<Rightarrow> dev_state \<Rightarrow> dev_state" where
  "send channel_id content s =
     s\<lparr>actions := actions s @ [Send channel_id (smiley @ [10] @ content @ [10] @ smiley)]\<rparr>"

definition close :: "dev_state \<Rightarrow> dev_state" where
  "close s = s\<lparr>actions := actions s @ [Close]\<rparr>"

text \<open>
  \<open>send_blocks\<close> sends every page of \<open>pagify(content)\<close>, with the default arguments, in a
  code block. With these arguments the generator is exhausted after at most
  \<open>len(content) + 1\<close> tests of the loop condition (lemma \<open>pagify_default_exhausted\<close>), which
  is the fuel given here.
\<close>

definition default_delims :: "pystr list" where
  "default_delims = [[10]]"

definition send_blocks :: "pystr \<Rightarrow> pystr \<Rightarrow> dev_state \<Rightarrow> dev_state" where
  "send_blocks channel_id content s =
     foldl (\<lambda>s page. send channel_id (backticks @ str ''py'' @ [10] @ page @ [10] @ backticks) s) s
       (fst (pagify (Suc (length content)) content default_delims False 12 2000))"

text \<open>
  The Python interpreter is a parameter of the model. \<open>exec_def\<close> stands for compiling
  the wrapper in mode \<open>exec\<close>, executing it and calling the function it defines with the
  standard output captured: it raises before the call, or gives what the call printed and
  how the call ended. \<open>eval_expr\<close> stands for compiling a text in mode \<open>eval\<close> and
  evaluating it. Both see the environment, of which the stored last result (\<open>_\<close>) and the
  event are kept here. What the executed code does to the connection or to the console
  object itself is outside the model.
\<close>

record message_event =
  author_id :: pystr
  content :: "pystr option"
  channel_id :: pystr

record environment =
  underscore :: pyval
  event :: message_event

datatype exec_result = ExecRaises exc | Defines pystr outcome

record python =
  exec_def :: "pystr \<Rightarrow> environment \<Rightarrow> exec_result"
  eval_expr :: "pystr \<Rightarrow> environment \<Rightarrow> outcome"

definition get_environment :: "dev_state \<Rightarrow> message_event \<Rightarrow> environment" where
  "get_environment s ev = \<lparr>underscore = last_result s, event = ev\<rparr>"

text \<open>How a handler ends: it returns, an exception leaves it, or it never returns
  because the code it awaits never does.\<close>

datatype completion = Completed | Uncaught exc | UncaughtError error | Hung

text \<open>\<open>Dev.eval\<close>. The first definition is the end of the method, from the test
  \<open>result is not None\<close> on: \<open>result\<close> is \<open>None\<close> unless the call returned, and \<open>printed\<close> is
  the captured output, followed by the traceback when an \<open>Exception\<close> was caught.\<close>

definition eval_report ::
  "authentication_data \<Rightarrow> pystr \<Rightarrow> pyval \<Rightarrow> pystr \<Rightarrow> dev_state \<Rightarrow> completion \<times> dev_state" where
  "eval_report auth_data chan result printed s =
     (let (s', msg) =
            (if result \<noteq> PyNone then (s\<lparr>last_result := result\<rparr>, printed @ py_str result)
             else (s, printed))
      in case sanitize_output auth_data msg of
           Inl err \<Rightarrow> (UncaughtError err, s')
         | Inr msg' \<Rightarrow> (Completed, send_blocks chan msg' s'))"

definition to_compile :: "pystr \<Rightarrow> pystr" where
  "to_compile body = str ''async def func():'' @ [10] @ indent body (str ''  '')"

definition eval_dev ::
  "python \<Rightarrow> authentication_data \<Rightarrow> pystr \<Rightarrow> pystr \<Rightarrow> message_event \<Rightarrow> dev_state \<Rightarrow>
   completion \<times> dev_state" where
  "eval_dev py auth_data chan body ev s =
     (let env = get_environment s ev;
          body' = cleanup_code body
      in case exec_def py (to_compile body') env of
           ExecRaises (SyntaxError e tb) \<Rightarrow> (Completed, send_blocks chan (get_syntax_error e) s)
         | ExecRaises (Exception tb) \<Rightarrow> (Uncaught (Exception tb), s)
         | ExecRaises (BaseException tb) \<Rightarrow> (Uncaught (BaseException tb), s)
         | Defines out oc \<Rightarrow>
             (case oc of
                Returns v \<Rightarrow> eval_report auth_data chan v out s
              | Raises (BaseException tb) \<Rightarrow> (Uncaught (BaseException tb), s)
              | Raises e \<Rightarrow> eval_report auth_data chan PyNone (out @ format_exc e) s
              | Never \<Rightarrow> (Hung, s)))"

text \<open>\<open>Dev.debug\<close>. The first definition is the line
  \<open>result = await self.maybe_await(eval(compiled, env))\<close>.\<close>

definition debug_result :: "python \<Rightarrow> pystr \<Rightarrow> environment \<Rightarrow> outcome" where
  "debug_result py code env =
     (case eval_expr py code env of Returns v \<Rightarrow> maybe_await v | Raises e \<Rightarrow> Raises e | Never \<Rightarrow> Never)"

definition debug ::
  "python \<Rightarrow> authentication_data \<Rightarrow> pystr \<Rightarrow> pystr \<Rightarrow> message_event \<Rightarrow> dev_state \<Rightarrow>
   completion \<times> dev_state" where
  "debug py auth_data chan body ev s =
     (let env = get_environment s ev;
          code = cleanup_code body
      in case debug_result py code env of
           Raises (SyntaxError e tb) \<Rightarrow> (Completed, send_blocks chan (get_syntax_error e) s)
         | Raises (Exception tb) \<Rightarrow> (Completed, send_blocks chan tb s)
         | Raises (BaseException tb) \<Rightarrow> (Uncaught (BaseException tb), s)
         | Never \<Rightarrow> (Hung, s)
         | Returns result \<Rightarrow>
             (let s' = s\<lparr>last_result := result\<rparr>
              in case sanitize_output auth_data (py_str result) of
                   Inl err \<Rightarrow> (UncaughtError err, s')
                 | Inr msg \<Rightarrow> (Completed, send_blocks chan msg s')))"

section \<open>The bot (\<open>__main__.py\<close>)\<close>

text \<open>The prefix is read from the environment and checked when the module is loaded,
  before the client is created and long before \<open>main\<close> starts the connection: an error
  here ends the process.\<close>

definition check_prefix :: "pystr \<Rightarrow> error + pystr" where
  "check_prefix p = (if length (split p None) \<noteq> 1 then Inl RuntimeError else Inr p)"

definition load_prefix :: "(pystr \<rightharpoonup> pystr) \<Rightarrow> error + pystr" where
  "load_prefix environ =
     (case environ (str ''REVOLTBOT_PREFIX'') of
        None \<Rightarrow> Inl KeyError
      | Some p \<Rightarrow> check_prefix p)"

record config =
  PREFIX :: pystr
  owner_id :: pystr
  auth :: authentication_data

text \<open>\<open>on_message\<close>.\<close>

definition on_message ::
  "python \<Rightarrow> config \<Rightarrow> message_event \<Rightarrow> dev_state \<Rightarrow> completion \<times> dev_state" where
  "on_message py cfg ev s =
     (if author_id ev \<noteq> owner_id cfg then (Completed, s)
      else case content ev of
        None \<Rightarrow> (Completed, s)
      | Some c \<Rightarrow>
          (let parts = split c (Some 1)
           in if parts = [] then (Completed, s)
              else
                (let command = hd parts;
                     body = (if length parts = 2 then parts ! 1 else [])
                 in if command = PREFIX cfg @ str ''ping'' then
                      (Completed, send (channel_id ev) (str ''Pong!'') s)
                    else if command = PREFIX cfg @ str ''shutdown'' then
                      (Completed, close (send (channel_id ev) (str ''Shutting down...'') s))
                    else if body = [] then (Completed, s)
                    else if command = PREFIX cfg @ str ''eval'' then
                      eval_dev py (auth cfg) (channel_id ev) body ev s
                    else if command = PREFIX cfg @ str ''debug'' then
                      debug py (auth cfg) (channel_id ev) body ev s
                    else (Completed, s))))"

section \<open>Lemmas on strings and on the loop of \<open>pagify\<close>\<close>

lemma strip_Nil_iff: "strip s = [] \<longleftrightarrow> (\<forall>c\<in>set s. isspace c)"
proof
  assume "strip s = []"
  then have a: "\<forall>x\<in>set (dropWhile isspace s). isspace x"
    by (simp add: strip_def dropWhile_eq_Nil_conv)
  have "dropWhile isspace s = []"
  proof (rule ccontr)
    assume n: "dropWhile isspace s \<noteq> []"
    then have "\<not> isspace (hd (dropWhile isspace s))" by (rule hd_dropWhile)
    moreover have "hd (dropWhile isspace s) \<in> set (dropWhile isspace s)" using n by simp
    ultimately show False using a by blast
  qed
  then show "\<forall>c\<in>set s. isspace c" by (simp add: dropWhile_eq_Nil_conv)
next
  assume "\<forall>c\<in>set s. isspace c"
  then show "strip s = []" by (auto simp: strip_def dest: set_dropWhileD)
qed

lemma slice_concat: "slice_to s k @ slice_from s k = s"
  by (simp add: slice_to_def slice_from_def)

lemma rfind_range:
  "rfind s sub 1 stop = - 1 \<or>
   (1 \<le> rfind s sub 1 stop \<and> rfind s sub 1 stop \<le> int (length s) \<and> (0 \<le> stop \<longrightarrow> rfind s sub 1 stop \<le> stop))"
proof -
  define n where "n = int (length s)"
  define e where "e = (if stop > n then n else if stop < 0 then max 0 (stop + n) else stop)"
  define m where "m = int (length sub)"
  define cands where "cands = filter (\<lambda>i. take (length sub) (drop i s) = sub) (rev [nat 1 ..< Suc (nat (e - m))])"
  have r: "rfind s sub 1 stop = (if e - 1 < m then - 1 else (case cands of [] \<Rightarrow> - 1 | i # _ \<Rightarrow> int i))"
    by (simp add: rfind_def n_def e_def m_def cands_def Let_def)
  show ?thesis
  proof (cases "e - 1 < m \<or> cands = []")
    case True
    then show ?thesis using r by auto
  next
    case False
    then obtain i rest where c: "cands = i # rest" by (cases cands) auto
    then have "i \<in> set cands" by simp
    then have "i \<in> set [nat 1 ..< Suc (nat (e - m))]" unfolding cands_def by simp
    then have b: "1 \<le> i" "int i \<le> e - m" using False by auto
    have "e \<le> n" "0 \<le> stop \<Longrightarrow> e \<le> stop" unfolding e_def n_def by auto
    moreover have "0 \<le> m" unfolding m_def by simp
    moreover have "rfind s sub 1 stop = int i" using r False c by simp
    ultimately show ?thesis using b unfolding n_def by auto
  qed
qed

lemma closest_delim_range:
  assumes "closest_delim delims priority s P = Inr r"
  shows "r = - 1 \<or> (1 \<le> r \<and> r \<le> int (length s) \<and> (0 \<le> P \<longrightarrow> r \<le> P))"
proof (cases priority)
  case True
  define found where "found = map (\<lambda>d. rfind s d 1 P) delims"
  have r: "r = (case filter (\<lambda>x. x > 0) found of [] \<Rightarrow> - 1 | x # _ \<Rightarrow> x)"
    using assms True by (simp add: closest_delim_def found_def)
  show ?thesis
  proof (cases "filter (\<lambda>x. x > 0) found")
    case Nil
    then show ?thesis using r by simp
  next
    case (Cons x xs)
    then have "x \<in> set (filter (\<lambda>x. x > 0) found)" by simp
    then have "x \<in> set found" by simp
    then obtain d where "x = rfind s d 1 P" unfolding found_def by auto
    then show ?thesis using rfind_range [of s d P] r Cons by auto
  qed
next
  case False
  define found where "found = map (\<lambda>d. rfind s d 1 P) delims"
  have ne: "found \<noteq> []" and r: "r = Max (set found)"
    using assms False by (auto simp: closest_delim_def found_def split: if_splits)
  have "Max (set found) \<in> set found" using ne by (intro Max_in) auto
  then obtain d where "r = rfind s d 1 P" unfolding found_def r by auto
  then show ?thesis using rfind_range [of s d P] by auto
qed


lemma pagify_body_Inr:
  assumes "pagify_body delims priority P s = Inr (chunk, rest)"
  shows "\<exists>k. (k = P \<or> (1 \<le> k \<and> k \<le> int (length s) \<and> (0 \<le> P \<longrightarrow> k \<le> P))) \<and>
             rest = slice_from s k \<and>
             chunk = (if strip (slice_to s k) \<noteq> [] then Some (slice_to s k) else None)"
proof -
  obtain r where r: "closest_delim delims priority s P = Inr r"
    using assms by (auto simp: pagify_body_def split: sum.splits)
  define k where "k = (if r \<noteq> - 1 then r else P)"
  have "rest = slice_from s k" "chunk = (if strip (slice_to s k) \<noteq> [] then Some (slice_to s k) else None)"
    using assms r by (auto simp: pagify_body_def k_def Let_def)
  moreover have "k = P \<or> (1 \<le> k \<and> k \<le> int (length s) \<and> (0 \<le> P \<longrightarrow> k \<le> P))"
    using closest_delim_range [OF r] by (auto simp: k_def)
  ultimately show ?thesis by blast
qed

lemma pagify_body_progress:
  assumes "1 \<le> P" "int (length s) > P" "pagify_body delims priority P s = Inr (chunk, rest)"
  shows "length rest < length s"
proof -
  obtain k where k: "k = P \<or> (1 \<le> k \<and> k \<le> int (length s) \<and> (0 \<le> P \<longrightarrow> k \<le> P))"
    and rest: "rest = slice_from s k"
    using pagify_body_Inr [OF assms(3)] by blast
  have "1 \<le> k" "k \<le> int (length s)" using k assms(1,2) by auto
  then show ?thesis unfolding rest by (simp add: slice_from_def)
qed

lemma pagify_body_chunk_len:
  assumes "0 \<le> P" "pagify_body delims priority P s = Inr (Some c, rest)"
  shows "int (length c) \<le> P"
proof -
  obtain k where k: "k = P \<or> (1 \<le> k \<and> k \<le> int (length s) \<and> (0 \<le> P \<longrightarrow> k \<le> P))"
    and c: "Some c = (if strip (slice_to s k) \<noteq> [] then Some (slice_to s k) else None)"
    using pagify_body_Inr [OF assms(2)] by blast
  have "0 \<le> k" "k \<le> P" using k assms(1) by auto
  moreover have "c = slice_to s k" using c by (auto split: if_splits)
  ultimately show ?thesis by (simp add: slice_to_def)
qed

lemma pagify_body_chunk_nonblank:
  assumes "pagify_body delims priority P s = Inr (Some c, rest)"
  shows "strip c \<noteq> []"
  using pagify_body_Inr [OF assms] by (auto split: if_splits)

lemma pagify_body_no_raise:
  assumes "priority \<or> delims \<noteq> []"
  shows "\<exists>chunk rest. pagify_body delims priority P s = Inr (chunk, rest)"
  using assms by (auto simp: pagify_body_def closest_delim_def Let_def)

lemma pagify_body_raises:
  assumes "pagify_body delims priority P s = Inl e"
  shows "e = ValueError \<and> \<not> priority \<and> delims = []"
  using assms by (auto simp: pagify_body_def closest_delim_def Let_def split: if_splits sum.splits)

lemma pagify_loop_chunk_len:
  "0 \<le> P \<Longrightarrow> c \<in> set (fst (pagify_loop n delims priority P s)) \<Longrightarrow> int (length c) \<le> P"
proof (induction n arbitrary: s)
  case 0
  then show ?case by simp
next
  case (Suc n)
  show ?case
  proof (cases "int (length s) > P")
    case False
    then show ?thesis using Suc.prems by (auto split: if_splits)
  next
    case True
    show ?thesis
    proof (cases "pagify_body delims priority P s")
      case (Inl e)
      then show ?thesis using Suc.prems True by simp
    next
      case (Inr b)
      obtain chunk rest where b: "b = (chunk, rest)" by (cases b)
      have "c \<in> set (fst (pagify_loop n delims priority P rest)) \<or> chunk = Some c"
        using Suc.prems(2) True Inr b by (auto split: prod.splits option.splits)
      then show ?thesis
        using Suc.IH [OF Suc.prems(1)] pagify_body_chunk_len [OF Suc.prems(1)] Inr b by blast
    qed
  qed
qed

lemma pagify_loop_chunk_nonblank:
  "c \<in> set (fst (pagify_loop n delims priority P s)) \<Longrightarrow> strip c \<noteq> []"
proof (induction n arbitrary: s)
  case 0
  then show ?case by simp
next
  case (Suc n)
  show ?case
  proof (cases "int (length s) > P")
    case False
    then show ?thesis using Suc.prems by (auto split: if_splits)
  next
    case True
    show ?thesis
    proof (cases "pagify_body delims priority P s")
      case (Inl e)
      then show ?thesis using Suc.prems True by simp
    next
      case (Inr b)
      obtain chunk rest where b: "b = (chunk, rest)" by (cases b)
      have "c \<in> set (fst (pagify_loop n delims priority P rest)) \<or> chunk = Some c"
        using Suc.prems True Inr b by (auto split: prod.splits option.splits)
      then show ?thesis
        using Suc.IH pagify_body_chunk_nonblank Inr b by blast
    qed
  qed
qed

lemma pagify_loop_terminates:
  "1 \<le> P \<Longrightarrow> length s < n \<Longrightarrow> snd (pagify_loop n delims priority P s) \<noteq> Running"
proof (induction n arbitrary: s)
  case 0
  then show ?case by simp
next
  case (Suc n)
  show ?case
  proof (cases "int (length s) > P")
    case False
    then show ?thesis by simp
  next
    case True
    show ?thesis
    proof (cases "pagify_body delims priority P s")
      case (Inl e)
      then show ?thesis using True by simp
    next
      case (Inr b)
      obtain chunk rest where b: "b = (chunk, rest)" by (cases b)
      have "length rest < length s"
        using pagify_body_progress [OF Suc.prems(1) True] Inr b by simp
      then have "length rest < n" using Suc.prems(2) by simp
      then have "snd (pagify_loop n delims priority P rest) \<noteq> Running"
        using Suc.IH Suc.prems(1) by blast
      then show ?thesis using True Inr b by (simp add: case_prod_beta)
    qed
  qed
qed

lemma pagify_loop_exhausts:
  "1 \<le> P \<Longrightarrow> priority \<or> delims \<noteq> [] \<Longrightarrow> length s < n \<Longrightarrow>
   snd (pagify_loop n delims priority P s) = Exhausted"
proof (induction n arbitrary: s)
  case 0
  then show ?case by simp
next
  case (Suc n)
  show ?case
  proof (cases "int (length s) > P")
    case False
    then show ?thesis by simp
  next
    case True
    obtain chunk rest where b: "pagify_body delims priority P s = Inr (chunk, rest)"
      using pagify_body_no_raise [OF Suc.prems(2)] by blast
    have "length rest < length s"
      using pagify_body_progress [OF Suc.prems(1) True b] .
    then have "length rest < n" using Suc.prems(3) by simp
    then have "snd (pagify_loop n delims priority P rest) = Exhausted"
      using Suc.IH Suc.prems(1,2) by blast
    then show ?thesis using True b by (simp add: case_prod_beta)
  qed
qed

lemma pagify_loop_fuel_mono:
  "snd (pagify_loop n delims priority P s) \<noteq> Running \<Longrightarrow>
   pagify_loop (n + k) delims priority P s = pagify_loop n delims priority P s"
proof (induction n arbitrary: s)
  case 0
  then show ?case by simp
next
  case (Suc n)
  show ?case
  proof (cases "int (length s) > P")
    case False
    then show ?thesis by simp
  next
    case True
    show ?thesis
    proof (cases "pagify_body delims priority P s")
      case (Inl e)
      then show ?thesis using True by simp
    next
      case (Inr b)
      obtain chunk rest where b: "b = (chunk, rest)" by (cases b)
      have "snd (pagify_loop n delims priority P rest) \<noteq> Running"
        using Suc.prems True Inr b by (simp split: prod.splits)
      then have "pagify_loop (n + k) delims priority P rest = pagify_loop n delims priority P rest"
        by (rule Suc.IH)
      then show ?thesis using True Inr b by simp
    qed
  qed
qed

lemma pagify_body_closest:
  assumes "closest_delim delims priority s P = Inr r" and "k = (if r \<noteq> - 1 then r else P)"
  shows "pagify_body delims priority P s =
         Inr (if strip (slice_to s k) \<noteq> [] then Some (slice_to s k) else None, slice_from s k)"
  using assms by (simp add: pagify_body_def Let_def)

lemma pagify_segments_closest:
  assumes "int (length s) > P" "closest_delim delims priority s P = Inr r"
    and "k = (if r \<noteq> - 1 then r else P)"
  shows "pagify_segments (Suc n) delims priority P s =
         slice_to s k # pagify_segments n delims priority P (slice_from s k)"
  using assms by (simp add: Let_def)

lemma pagify_loop_segments:
  "fst (pagify_loop n delims priority P s) =
   filter (\<lambda>seg. strip seg \<noteq> []) (pagify_segments n delims priority P s)"
proof (induction n arbitrary: s)
  case 0
  then show ?case by simp
next
  case (Suc n)
  show ?case
  proof (cases "int (length s) > P")
    case False
    then show ?thesis by simp
  next
    case True
    show ?thesis
    proof (cases "closest_delim delims priority s P")
      case (Inl e)
      then show ?thesis using True by (simp add: pagify_body_def)
    next
      case (Inr r)
      define k where "k = (if r \<noteq> - 1 then r else P)"
      note body = pagify_body_closest [OF Inr k_def]
      note seg = pagify_segments_closest [OF True Inr k_def]
      show ?thesis
        unfolding seg using True body Suc.IH [of "slice_from s k"]
        by (simp add: case_prod_beta)
    qed
  qed
qed

lemma pagify_segments_concat:
  "snd (pagify_loop n delims priority P s) = Exhausted \<Longrightarrow>
   concat (pagify_segments n delims priority P s) = s"
proof (induction n arbitrary: s)
  case 0
  then show ?case by simp
next
  case (Suc n)
  show ?case
  proof (cases "int (length s) > P")
    case False
    then show ?thesis by simp
  next
    case True
    show ?thesis
    proof (cases "closest_delim delims priority s P")
      case (Inl e)
      then show ?thesis using True Suc.prems by (simp add: pagify_body_def)
    next
      case (Inr r)
      define k where "k = (if r \<noteq> - 1 then r else P)"
      note body = pagify_body_closest [OF Inr k_def]
      note seg = pagify_segments_closest [OF True Inr k_def]
      have "snd (pagify_loop n delims priority P (slice_from s k)) = Exhausted"
        using Suc.prems True body by (simp add: case_prod_beta)
      then have "concat (pagify_segments n delims priority P (slice_from s k)) = slice_from s k"
        by (rule Suc.IH)
      then show ?thesis unfolding seg using slice_concat [of s k] by simp
    qed
  qed
qed

section \<open>Lemmas on splitting and on the routing of commands\<close>

lemma split_scan_token:
  "\<forall>c\<in>set t. \<not> isspace c \<Longrightarrow> cur \<noteq> [] \<Longrightarrow>
   split_scan m cur (t @ rest) = split_scan m (rev t @ cur) rest"
  by (induction t arbitrary: cur) auto

lemma split_single_token:
  assumes "t \<noteq> []" "\<forall>c\<in>set t. \<not> isspace c"
  shows "split t (Some 1) = [t]"
proof -
  obtain c t' where t: "t = c # t'" using assms(1) by (cases t) auto
  have "split_scan (Some 1) [] (c # t') = split_scan (Some 1) [c] (t' @ [])"
    using assms(2) t by simp
  also have "\<dots> = split_scan (Some 1) (rev t' @ [c]) []"
    using assms(2) t by (intro split_scan_token) auto
  finally show ?thesis by (simp add: split_def t)
qed

lemma split_scan_first_token:
  "split_scan m cur s = p # ps \<Longrightarrow> m \<noteq> Some 0 \<Longrightarrow> \<forall>c\<in>set cur. \<not> isspace c \<Longrightarrow>
   \<forall>c\<in>set p. \<not> isspace c"
proof (induction s arbitrary: cur)
  case Nil
  then show ?case by (auto split: if_splits)
next
  case (Cons c cs)
  show ?case
  proof (cases "cur = []")
    case True
    show ?thesis
    proof (cases "isspace c")
      case sp: True
      then have "split_scan m [] cs = p # ps" using Cons.prems(1) True by simp
      then show ?thesis using Cons.IH [of "[]"] Cons.prems(2) by simp
    next
      case False
      then have "split_scan m [c] cs = p # ps" using Cons.prems(1,2) True by simp
      then show ?thesis using Cons.IH [of "[c]"] Cons.prems(2) False by simp
    qed
  next
    case ne: False
    show ?thesis
    proof (cases "isspace c")
      case True
      then have "p = rev cur" using Cons.prems(1) ne by simp
      then show ?thesis using Cons.prems(3) by simp
    next
      case False
      then have "split_scan m (c # cur) cs = p # ps" using Cons.prems(1) ne by simp
      then show ?thesis using Cons.IH [of "c # cur"] Cons.prems(2,3) False by simp
    qed
  qed
qed

lemma split_command_no_space:
  assumes "split c (Some 1) \<noteq> []"
  shows "\<forall>x\<in>set (hd (split c (Some 1))). \<not> isspace x"
proof -
  obtain p ps where "split_scan (Some 1) [] c = p # ps"
    using assms by (cases "split c (Some 1)") (auto simp: split_def)
  then show ?thesis using split_scan_first_token [of "Some 1" "[]" c p ps] by (simp add: split_def)
qed

lemma letters_no_space:
  "\<forall>x\<in>set (str ''ping''). \<not> isspace x"
  "\<forall>x\<in>set (str ''shutdown''). \<not> isspace x"
  "\<forall>x\<in>set (str ''eval''). \<not> isspace x"
  "\<forall>x\<in>set (str ''debug''). \<not> isspace x"
  by (simp_all add: str_def isspace_def)

lemma command_names_distinct:
  "str ''shutdown'' \<noteq> str ''ping''" "str ''eval'' \<noteq> str ''ping''" "str ''eval'' \<noteq> str ''shutdown''"
  "str ''debug'' \<noteq> str ''ping''" "str ''debug'' \<noteq> str ''shutdown''" "str ''debug'' \<noteq> str ''eval''"
  by (simp_all add: str_def)

lemma on_message_not_owner:
  "author_id ev \<noteq> owner_id cfg \<Longrightarrow> on_message py cfg ev s = (Completed, s)"
  by (simp add: on_message_def)

lemma on_message_shutdown:
  assumes "author_id ev = owner_id cfg" "\<forall>c\<in>set (PREFIX cfg). \<not> isspace c"
    and "content ev = Some (PREFIX cfg @ str ''shutdown'')"
  shows "on_message py cfg ev s =
         (Completed, close (send (channel_id ev) (str ''Shutting down...'') s))"
proof -
  define c where "c = PREFIX cfg @ str ''shutdown''"
  have "c \<noteq> []" by (simp add: c_def str_def)
  moreover have "\<forall>x\<in>set c. \<not> isspace x" using assms(2) letters_no_space(2) by (auto simp: c_def)
  ultimately have parts: "split c (Some 1) = [c]" by (rule split_single_token)
  show ?thesis
    using assms(1,3) parts command_names_distinct
    by (simp add: on_message_def c_def [symmetric]) (simp add: c_def)
qed

lemma on_message_bare_command:
  assumes "author_id ev = owner_id cfg" "content ev = Some (PREFIX cfg @ name)"
    and "name \<noteq> []" "\<forall>x\<in>set name. \<not> isspace x"
    and "name \<noteq> str ''ping''" "name \<noteq> str ''shutdown''"
  shows "on_message py cfg ev s = (Completed, s)"
proof (cases "\<forall>x\<in>set (PREFIX cfg). \<not> isspace x")
  case True
  define c where "c = PREFIX cfg @ name"
  have "c \<noteq> []" using assms(3) by (simp add: c_def)
  moreover have "\<forall>x\<in>set c. \<not> isspace x" using True assms(4) by (auto simp: c_def)
  ultimately have parts: "split c (Some 1) = [c]" by (rule split_single_token)
  show ?thesis
    using assms(1,2,5,6) parts
    by (simp add: on_message_def c_def [symmetric]) (simp add: c_def)
next
  case False
  define c where "c = PREFIX cfg @ name"
  show ?thesis
  proof (cases "split c (Some 1) = []")
    case True
    then show ?thesis using assms(1,2) by (simp add: on_message_def c_def)
  next
    case ne: False
    have ns: "\<forall>x\<in>set (hd (split c (Some 1))). \<not> isspace x"
      using ne by (rule split_command_no_space)
    have "hd (split c (Some 1)) \<noteq> PREFIX cfg @ w" for w
      using ns False by auto
    then show ?thesis using assms(1,2) ne by (simp add: on_message_def c_def Let_def)
  qed
qed

section \<open>Properties of \<open>pagify\<close>\<close>

text \<open>The loop on a numeral amount of fuel, for evaluation.\<close>

lemma pagify_loop_numeral:
  "pagify_loop (numeral k) delims priority page_length in_text =
     (if int (length in_text) > page_length then
        (case pagify_body delims priority page_length in_text of
           Inl e \<Rightarrow> ([], Raised e)
         | Inr (chunk, rest) \<Rightarrow>
             (let (pages, st) = pagify_loop (pred_numeral k) delims priority page_length rest
              in (case chunk of None \<Rightarrow> pages | Some to_send \<Rightarrow> to_send # pages, st)))
      else (if length (strip in_text) > 0 then [in_text] else [], Exhausted))"
  by (simp only: numeral_eq_Suc pagify_loop.simps)

lemma pagify_segments_numeral:
  "pagify_segments (numeral k) delims priority page_length in_text =
     (if int (length in_text) > page_length then
        (case closest_delim delims priority in_text page_length of
           Inl e \<Rightarrow> []
         | Inr found \<Rightarrow>
             (let closest = (if found \<noteq> - 1 then found else page_length)
              in slice_to in_text closest #
                 pagify_segments (pred_numeral k) delims priority page_length (slice_from in_text closest)))
      else [in_text])"
  by (simp only: numeral_eq_Suc pagify_segments.simps)

lemmas pagify_eval =
  pagify_def pagify_body_def closest_delim_def rfind_def slice_to_def slice_from_def
  strip_def isspace_def upt_conv_Cons pagify_loop_numeral pagify_segments_numeral
  default_delims_def str_def

lemma pagify_loop_length: "length (fst (pagify_loop n delims priority P s)) \<le> n"
proof (induction n arbitrary: s)
  case 0
  then show ?case by simp
next
  case (Suc n)
  show ?case
  proof (cases "int (length s) > P")
    case False
    then show ?thesis by simp
  next
    case True
    show ?thesis
    proof (cases "pagify_body delims priority P s")
      case (Inl e)
      then show ?thesis using True by simp
    next
      case (Inr b)
      obtain chunk rest where b: "b = (chunk, rest)" by (cases b)
      have "length (fst (pagify_loop n delims priority P rest)) \<le> n" by (rule Suc.IH)
      then show ?thesis using True Inr b by (simp add: case_prod_beta split: option.splits)
    qed
  qed
qed

lemma stuck_page_body:
  "pagify_body default_delims False 0 [97] = Inr (None, [97])"
  by (simp add: pagify_eval)

lemma stuck_page_running:
  "pagify_loop n default_delims False 0 [97] = ([], Running)"
  by (induction n) (simp_all add: stuck_page_body)

lemma stuck_page_segments:
  "concat (pagify_segments n default_delims False 0 [97]) = []"
proof (induction n)
  case 0
  then show ?case by simp
next
  case (Suc n)
  have "closest_delim default_delims False [97] 0 = Inr (- 1)"
    by (simp add: pagify_eval)
  then show ?case using Suc by (simp add: slice_to_def slice_from_def)
qed

subsection \<open>Length of the chunks\<close>

text \<open>
  Claim C5, as amended. Whenever \<open>page_length - shorten_by\<close> is not negative, no chunk
  yielded by \<open>pagify\<close>, at any point of its run, is longer than
  \<open>page_length - shorten_by\<close> characters (1988 with the default arguments), whatever
  the text, the delimiters and the priority flag. The backward delimiter search never
  gives position \<open>0\<close> as a split point: neither \<open>rfind\<close> from position \<open>1\<close> nor the
  search over all delimiters returns \<open>0\<close>, for any text and any bound.
\<close>
theorem pagify_chunk_bound:
  "0 \<le> page_length - shorten_by \<Longrightarrow>
   (\<forall>c\<in>set (fst (pagify fuel text delims priority shorten_by page_length)).
      int (length c) \<le> page_length - shorten_by) \<and>
   rfind in_text d 1 this_page_len \<noteq> 0 \<and>
   closest_delim delims priority in_text this_page_len \<noteq> Inr 0"
proof (intro conjI ballI)
  fix c
  assume "0 \<le> page_length - shorten_by"
    and "c \<in> set (fst (pagify fuel text delims priority shorten_by page_length))"
  then show "int (length c) \<le> page_length - shorten_by"
    unfolding pagify_def by (rule pagify_loop_chunk_len)
next
  show "rfind in_text d 1 this_page_len \<noteq> 0"
    using rfind_range [of in_text d this_page_len] by auto
next
  show "closest_delim delims priority in_text this_page_len \<noteq> Inr 0"
    using closest_delim_range [of delims priority in_text this_page_len 0] by auto
qed

text \<open>An instance: four pages of at most four characters, split at the spaces.\<close>

theorem pagify_chunk_bound_witness:
  "(0::int) \<le> 4 - 0 \<and>
   fst (pagify 10 (str ''ab cd ef gh'') [str '' ''] False 0 4) =
     [str ''ab'', str '' cd'', str '' ef'', str '' gh''] \<and>
   list_all (\<lambda>c. int (length c) \<le> 4 - 0) (fst (pagify 10 (str ''ab cd ef gh'') [str '' ''] False 0 4)) \<and>
   rfind (str ''ab cd ef gh'') (str '' '') 1 4 \<noteq> 0 \<and>
   closest_delim [str '' ''] False (str ''ab cd ef gh'') 4 \<noteq> Inr 0"
  using pagify_chunk_bound [of 4 0 10 "str ''ab cd ef gh''" "[str '' '']" False "str ''ab cd ef gh''" "str '' ''" 4]
  by (simp add: list_all_iff) (simp add: pagify_eval)

text \<open>
  Without the restriction the bound fails: with \<open>page_length = 0\<close> and \<open>shorten_by = 3\<close>
  the first iteration cuts at \<open>in_text[:-3]\<close> and yields five characters, more than
  \<open>page_length - shorten_by = -3\<close>.
\<close>

theorem pagify_chunk_bound_counterexample:
  "pagify 1 (str ''abcdefgh'') default_delims False 3 0 = ([str ''abcde''], Running) \<and>
   \<not> int (length (str ''abcde'')) \<le> 0 - 3"
  by (simp add: pagify_eval)

subsection \<open>Termination\<close>

text \<open>
  Claim C8, as amended. Whenever \<open>page_length - shorten_by\<close> is at least \<open>1\<close>, \<open>pagify\<close>
  terminates: after at most \<open>len(text) + 1\<close> tests of the loop condition the generator is
  exhausted or has raised, more fuel changes nothing, and at most \<open>len(text) + 1\<close> chunks
  are yielded. It is exhausted (and has not raised) when the priority flag is set or some
  delimiter is given. Every loop iteration strictly shortens the remaining text.
\<close>
theorem pagify_terminates:
  "1 \<le> page_length - shorten_by \<Longrightarrow>
   snd (pagify (Suc (length text)) text delims priority shorten_by page_length) \<noteq> Running \<and>
   pagify (Suc (length text) + k) text delims priority shorten_by page_length =
     pagify (Suc (length text)) text delims priority shorten_by page_length \<and>
   length (fst (pagify (Suc (length text)) text delims priority shorten_by page_length))
     \<le> Suc (length text) \<and>
   (priority \<or> delims \<noteq> [] \<longrightarrow>
      snd (pagify (Suc (length text)) text delims priority shorten_by page_length) = Exhausted) \<and>
   (int (length in_text) > page_length - shorten_by \<and>
    pagify_body delims priority (page_length - shorten_by) in_text = Inr (chunk, rest) \<longrightarrow>
      length rest < length in_text)"
proof -
  assume P: "1 \<le> page_length - shorten_by"
  define n where "n = Suc (length text)"
  define Q where "Q = page_length - shorten_by"
  have lt: "length text < n" by (simp add: n_def)
  have t: "snd (pagify_loop n delims priority Q text) \<noteq> Running"
    using P lt unfolding Q_def by (rule pagify_loop_terminates)
  have m: "pagify_loop (n + k) delims priority Q text = pagify_loop n delims priority Q text"
    using t by (rule pagify_loop_fuel_mono)
  have l: "length (fst (pagify_loop n delims priority Q text)) \<le> n"
    by (rule pagify_loop_length)
  have e: "priority \<or> delims \<noteq> [] \<longrightarrow> snd (pagify_loop n delims priority Q text) = Exhausted"
    using pagify_loop_exhausts [OF P _ lt] unfolding Q_def by blast
  have p: "int (length in_text) > Q \<and> pagify_body delims priority Q in_text = Inr (chunk, rest) \<longrightarrow>
      length rest < length in_text"
    using pagify_body_progress [OF P] unfolding Q_def by blast
  show ?thesis
    unfolding pagify_def using t m l e p unfolding n_def Q_def by blast
qed

theorem pagify_terminates_witness:
  "(1::int) \<le> 4 - 0 \<and>
   pagify (Suc (length (str ''ab cd ef gh''))) (str ''ab cd ef gh'') [str '' ''] False 0 4 =
     ([str ''ab'', str '' cd'', str '' ef'', str '' gh''], Exhausted) \<and>
   pagify (Suc (length (str ''ab cd ef gh'')) + 5) (str ''ab cd ef gh'') [str '' ''] False 0 4 =
     pagify (Suc (length (str ''ab cd ef gh''))) (str ''ab cd ef gh'') [str '' ''] False 0 4 \<and>
   pagify_body [str '' ''] False (4 - 0) (str ''ab cd ef gh'') = Inr (Some (str ''ab''), str '' cd ef gh'') \<and>
   length (str '' cd ef gh'') < length (str ''ab cd ef gh'')"
  using pagify_terminates [of 4 0 "str ''ab cd ef gh''" "[str '' '']" False 5 "str ''ab cd ef gh''"
      "Some (str ''ab'')" "str '' cd ef gh''"]
  by (simp add: pagify_eval)

text \<open>
  With \<open>page_length = shorten_by = 12\<close> the loop never ends on the text \<open>a\<close>: the split
  point is \<open>0\<close>, the iteration yields nothing and leaves the remaining text as it was.
\<close>

theorem pagify_terminates_counterexample:
  "\<not> (\<exists>fuel. snd (pagify fuel (str ''a'') default_delims False 12 12) \<noteq> Running) \<and>
   pagify_body default_delims False (12 - 12) (str ''a'') = Inr (None, str ''a'')"
  using stuck_page_body by (simp add: pagify_def stuck_page_running str_def)

subsection \<open>Reconstruction of the text\<close>

text \<open>
  Claim C7, as amended. Whenever \<open>pagify\<close> runs until the generator is exhausted, the
  segments it walked through, concatenated in order, are the input text; the chunks
  yielded are exactly the segments with a character that is not whitespace, in the same
  order, so that only segments of pure whitespace are dropped; and every chunk has a
  character that is not whitespace. The generator is exhausted whenever
  \<open>page_length - shorten_by\<close> is at least \<open>1\<close> and the priority flag is set or some
  delimiter is given.
\<close>
theorem pagify_reconstructs:
  "(snd (pagify fuel text delims priority shorten_by page_length) = Exhausted \<longrightarrow>
      concat (pagify_segments fuel delims priority (page_length - shorten_by) text) = text \<and>
      fst (pagify fuel text delims priority shorten_by page_length) =
        filter (\<lambda>seg. \<exists>c\<in>set seg. \<not> isspace c)
          (pagify_segments fuel delims priority (page_length - shorten_by) text) \<and>
      (\<forall>c\<in>set (fst (pagify fuel text delims priority shorten_by page_length)).
         \<exists>x\<in>set c. \<not> isspace x)) \<and>
   (1 \<le> page_length - shorten_by \<and> (priority \<or> delims \<noteq> []) \<longrightarrow>
      snd (pagify (Suc (length text)) text delims priority shorten_by page_length) = Exhausted)"
proof -
  have f: "(\<lambda>seg. strip seg \<noteq> []) = (\<lambda>seg. \<exists>c\<in>set seg. \<not> isspace c)"
    by (simp add: strip_Nil_iff)
  have a: "fst (pagify fuel text delims priority shorten_by page_length) =
        filter (\<lambda>seg. \<exists>c\<in>set seg. \<not> isspace c)
          (pagify_segments fuel delims priority (page_length - shorten_by) text)"
    unfolding pagify_def pagify_loop_segments f ..
  have b: "\<forall>c\<in>set (fst (pagify fuel text delims priority shorten_by page_length)).
         \<exists>x\<in>set c. \<not> isspace x"
    unfolding a by simp
  have c: "snd (pagify fuel text delims priority shorten_by page_length) = Exhausted \<longrightarrow>
      concat (pagify_segments fuel delims priority (page_length - shorten_by) text) = text"
    unfolding pagify_def using pagify_segments_concat by blast
  have lt: "length text < Suc (length text)" by simp
  have d: "1 \<le> page_length - shorten_by \<and> (priority \<or> delims \<noteq> []) \<longrightarrow>
      snd (pagify (Suc (length text)) text delims priority shorten_by page_length) = Exhausted"
    unfolding pagify_def using pagify_loop_exhausts [OF _ _ lt] by blast
  show ?thesis using a b c d by blast
qed

text \<open>An instance in which two blank segments are dropped.\<close>

theorem pagify_reconstructs_witness:
  "snd (pagify 13 (str ''ab      ef gh'') [str '' ''] False 0 4) = Exhausted \<and>
   pagify_segments 13 [str '' ''] False (4 - 0) (str ''ab      ef gh'') =
     [str ''ab '', str ''   '', str '' '', str '' ef'', str '' gh''] \<and>
   concat (pagify_segments 13 [str '' ''] False (4 - 0) (str ''ab      ef gh'')) = str ''ab      ef gh'' \<and>
   fst (pagify 13 (str ''ab      ef gh'') [str '' ''] False 0 4) = [str ''ab '', str '' ef'', str '' gh''] \<and>
   (1::int) \<le> 4 - 0 \<and> snd (pagify (Suc (length (str ''ab      ef gh''))) (str ''ab      ef gh'') [str '' ''] False 0 4) = Exhausted"
  using pagify_reconstructs [of 13 "str ''ab      ef gh''" "[str '' '']" False 0 4]
  by (simp add: pagify_eval)

text \<open>
  With \<open>page_length = shorten_by = 12\<close> and the text \<open>a\<close> every segment walked through is
  empty, so no number of iterations reconstructs the text, and the generator is never
  exhausted.
\<close>

theorem pagify_reconstructs_counterexample:
  "\<not> (\<exists>fuel. concat (pagify_segments fuel default_delims False (12 - 12) (str ''a'')) = str ''a'') \<and>
   \<not> (\<exists>fuel. snd (pagify fuel (str ''a'') default_delims False 12 12) = Exhausted)"
  by (simp add: pagify_def stuck_page_running stuck_page_segments str_def)

subsection \<open>The example of the alternating text\<close>

lemma alternating_length: "length (concat (replicate n [a, b])) = 2 * n"
  by (induction n) simp_all

lemma alternating_nth:
  "i < 2 * n \<Longrightarrow> concat (replicate n [a, b]) ! i = (if even i then a else b)"
proof (induction n arbitrary: i)
  case 0
  then show ?case by simp
next
  case (Suc n)
  show ?case
  proof (cases "i < 2")
    case True
    then have "i = 0 \<or> i = 1" by auto
    then show ?thesis by auto
  next
    case False
    define j where "j = i - 2"
    have j: "i = Suc (Suc j)" using False by (simp add: j_def)
    then have "j < 2 * n" using Suc.prems by simp
    then show ?thesis using Suc.IH [of j] j by simp
  qed
qed

lemma newline_text_length: "length newline_text = 4000"
  by (simp add: newline_text_def str_def alternating_length)

lemma newline_text_nth: "i < 4000 \<Longrightarrow> newline_text ! i = (if even i then 97 else 10)"
  using alternating_nth [of i 2000 97 10] by (simp add: newline_text_def str_def)

lemma filter_rev_upt_first:
  "a \<le> i \<Longrightarrow> i < b \<Longrightarrow> P i \<Longrightarrow> \<forall>j. i < j \<and> j < b \<longrightarrow> \<not> P j \<Longrightarrow>
   \<exists>rest. filter P (rev [a..<b]) = i # rest"
proof (induction b)
  case 0
  then show ?case by simp
next
  case (Suc b)
  show ?case
  proof (cases "i = b")
    case True
    then show ?thesis using Suc.prems by simp
  next
    case False
    then have "i < b" using Suc.prems(2) by simp
    moreover have "\<not> P b" using Suc.prems(4) \<open>i < b\<close> by simp
    moreover have "\<forall>j. i < j \<and> j < b \<longrightarrow> \<not> P j" using Suc.prems(4) by simp
    ultimately show ?thesis using Suc.IH Suc.prems(1,3) by simp
  qed
qed

lemma rfind_eqI:
  assumes "0 \<le> stop" "stop \<le> int (length s)" "1 \<le> i" "int i + int (length sub) \<le> stop"
    and "take (length sub) (drop i s) = sub"
    and "\<forall>j. i < j \<and> int j + int (length sub) \<le> stop \<longrightarrow> take (length sub) (drop j s) \<noteq> sub"
  shows "rfind s sub 1 stop = int i"
proof -
  define b where "b = Suc (nat (stop - int (length sub)))"
  have "\<exists>rest. filter (\<lambda>i. take (length sub) (drop i s) = sub) (rev [1..<b]) = i # rest"
  proof (rule filter_rev_upt_first)
    show "1 \<le> i" by (rule assms(3))
    show "i < b" using assms(4) by (simp add: b_def)
    show "take (length sub) (drop i s) = sub" by (rule assms(5))
    show "\<forall>j. i < j \<and> j < b \<longrightarrow> take (length sub) (drop j s) \<noteq> sub"
      using assms(6) by (auto simp: b_def)
  qed
  then obtain rest where
    "filter (\<lambda>i. take (length sub) (drop i s) = sub) (rev [1..<b]) = i # rest" by blast
  then show ?thesis
    using assms(1-4) by (simp add: rfind_def b_def Let_def)
qed

lemma take_one_drop:
  "j < length s \<Longrightarrow> (take (length [c]) (drop j s) = [c]) = (s ! j = c)"
  by (simp add: Cons_nth_drop_Suc [symmetric])

lemma rfind_newline_text:
  assumes "k + 1988 \<le> 4000" "1 \<le> i" "i < 1988" "odd (k + i)"
    and "\<forall>j. i < j \<and> j < 1988 \<longrightarrow> even (k + j)"
  shows "rfind (drop k newline_text) [10] 1 1988 = int i"
proof (rule rfind_eqI)
  show "(0::int) \<le> 1988" by simp
  show "1988 \<le> int (length (drop k newline_text))"
    using assms(1) by (simp add: newline_text_length)
  show "1 \<le> i" by (rule assms(2))
  show "int i + int (length [10::nat]) \<le> 1988" using assms(3) by simp
  have n: "j < 1988 \<Longrightarrow> drop k newline_text ! j = (if even (k + j) then 97 else 10)" for j
    using assms(1) by (simp add: newline_text_length newline_text_nth)
  have l: "j < 1988 \<Longrightarrow> j < length (drop k newline_text)" for j
    using assms(1) by (simp add: newline_text_length)
  show "take (length [10::nat]) (drop i (drop k newline_text)) = [10]"
    using take_one_drop [OF l [OF assms(3)], of 10] n [OF assms(3)] assms(4) by simp
  show "\<forall>j. i < j \<and> int j + int (length [10::nat]) \<le> 1988 \<longrightarrow>
          take (length [10::nat]) (drop j (drop k newline_text)) \<noteq> [10]"
  proof (intro allI impI)
    fix j
    assume a: "i < j \<and> int j + int (length [10::nat]) \<le> 1988"
    then have j: "j < 1988" by simp
    then have "even (k + j)" using assms(5) a by blast
    then show "take (length [10::nat]) (drop j (drop k newline_text)) \<noteq> [10]"
      using take_one_drop [OF l [OF j], of 10] n [OF j] by simp
  qed
qed

lemma nonblank_nth: "i < length s \<Longrightarrow> \<not> isspace (s ! i) \<Longrightarrow> strip s \<noteq> []"
  using strip_Nil_iff [of s] nth_mem [of i s] by blast

lemma pagify_body_newline_text:
  assumes "k + 1988 \<le> 4000" "1 \<le> i" "i < 1988" "odd (k + i)"
    and "\<forall>j. i < j \<and> j < 1988 \<longrightarrow> even (k + j)"
    and "strip (take i (drop k newline_text)) \<noteq> []"
  shows "pagify_body default_delims False 1988 (drop k newline_text) =
         Inr (Some (take i (drop k newline_text)), drop (k + i) newline_text)"
proof -
  have r: "rfind (drop k newline_text) [10] 1 1988 = int i"
    using assms(1-5) by (rule rfind_newline_text)
  have c: "closest_delim default_delims False (drop k newline_text) 1988 = Inr (int i)"
    by (simp add: closest_delim_def default_delims_def r)
  have "int i \<noteq> - 1" by simp
  then have "int i = (if int i \<noteq> - 1 then int i else 1988)" by simp
  from pagify_body_closest [OF c this] show ?thesis
    using assms(6) by (simp add: slice_to_def slice_from_def add.commute)
qed

lemma pagify_newline_text:
  "pagify (Suc (length newline_text)) newline_text default_delims False 12 2000 =
     ([take 1987 newline_text, take 1986 (drop 1987 newline_text), drop 3973 newline_text],
      Exhausted)"
proof -
  have s1: "strip (take 1987 (drop 0 newline_text)) \<noteq> []"
    by (rule nonblank_nth [of 0]) (simp_all add: newline_text_length newline_text_nth isspace_def)
  have s2: "strip (take 1986 (drop 1987 newline_text)) \<noteq> []"
    by (rule nonblank_nth [of 1]) (simp_all add: newline_text_length newline_text_nth isspace_def)
  have s3: "strip (drop 3973 newline_text) \<noteq> []"
    by (rule nonblank_nth [of 1]) (simp_all add: newline_text_length newline_text_nth isspace_def)
  have b1: "pagify_body default_delims False 1988 (drop 0 newline_text) =
         Inr (Some (take 1987 (drop 0 newline_text)), drop (0 + 1987) newline_text)"
  proof (rule pagify_body_newline_text)
    show "\<forall>j::nat. 1987 < j \<and> j < 1988 \<longrightarrow> even (0 + j)" by auto
  qed (use s1 in \<open>simp_all\<close>)
  have b2: "pagify_body default_delims False 1988 (drop 1987 newline_text) =
         Inr (Some (take 1986 (drop 1987 newline_text)), drop (1987 + 1986) newline_text)"
  proof (rule pagify_body_newline_text)
    show "\<forall>j::nat. 1986 < j \<and> j < 1988 \<longrightarrow> even (1987 + j)"
    proof (intro allI impI)
      fix j :: nat
      assume "1986 < j \<and> j < 1988"
      then have "j = 1987" by linarith
      then show "even (1987 + j)" by simp
    qed
  qed (use s2 in \<open>simp_all\<close>)
  show ?thesis
    using b1 b2 s3
    apply (simp add: pagify_def newline_text_length pagify_loop_numeral)
    done
qed

lemma last_take_nth:
  assumes "0 < n" "n \<le> length xs"
  shows "last (take n xs) = xs ! (n - 1)"
proof -
  have "take n xs \<noteq> []" using assms by auto
  then have "last (take n xs) = take n xs ! (length (take n xs) - 1)" by (rule last_conv_nth)
  then show ?thesis using assms by simp
qed

lemma newline_text_chunk_ends:
  "last (take 1987 newline_text) = 97" "hd (drop 1987 newline_text) = 10"
  "last (take 1986 (drop 1987 newline_text)) = 97" "hd (drop 3973 newline_text) = 10"
  "last (drop 3973 newline_text) = 10"
proof -
  have ne: "newline_text \<noteq> []" using newline_text_length by auto
  show "last (take 1987 newline_text) = 97"
    by (subst last_take_nth) (simp_all add: newline_text_length newline_text_nth)
  show "hd (drop 1987 newline_text) = 10"
    by (simp add: hd_drop_conv_nth newline_text_length newline_text_nth)
  show "last (take 1986 (drop 1987 newline_text)) = 97"
    by (subst last_take_nth) (simp_all add: newline_text_length newline_text_nth)
  show "hd (drop 3973 newline_text) = 10"
    by (simp add: hd_drop_conv_nth newline_text_length newline_text_nth)
  show "last (drop 3973 newline_text) = 10"
    using ne by (simp add: newline_text_length last_conv_nth newline_text_nth)
qed

text \<open>
  Claim C6, as amended. For the text \<open>a\<close>, newline, 2000 times, and the default
  arguments, \<open>pagify\<close> yields three chunks of 1987, 1986 and 27 characters, none longer
  than 1988. The text is cut at a newline, which opens the next chunk: every chunk but
  the last ends with \<open>a\<close> (code point 97) immediately before a newline (code point 10),
  and the chunk after it begins with that newline. The last chunk ends with a newline.
\<close>

theorem pagify_newline_example:
  "pagify (Suc (length newline_text)) newline_text default_delims False 12 2000 =
     ([take 1987 newline_text, take 1986 (drop 1987 newline_text), drop 3973 newline_text],
      Exhausted) \<and>
   map length [take 1987 newline_text, take 1986 (drop 1987 newline_text), drop 3973 newline_text] =
     [1987, 1986, 27] \<and>
   last (take 1987 newline_text) = 97 \<and> hd (drop 1987 newline_text) = 10 \<and>
   last (take 1986 (drop 1987 newline_text)) = 97 \<and> hd (drop 3973 newline_text) = 10 \<and>
   last (drop 3973 newline_text) = 10"
  using pagify_newline_text newline_text_chunk_ends by (simp add: newline_text_length)

text \<open>
  The claim as it was stated fails: the first chunk is not the last one, and it ends
  with \<open>a\<close>, not immediately after a newline.
\<close>

theorem pagify_newline_example_counterexample:
  "\<not> (\<forall>c\<in>set (butlast (fst (pagify (Suc (length newline_text)) newline_text default_delims
                                 False 12 2000))). last c = 10)"
  using newline_text_chunk_ends(1) by (simp add: pagify_newline_text)

section \<open>Properties of the console and of the command router\<close>

lemma pagify_default_exhausted:
  "snd (pagify (Suc (length msg)) msg default_delims False 12 2000) = Exhausted"
  unfolding pagify_def by (rule pagify_loop_exhausts) (simp_all add: default_delims_def)

lemma foldl_send_last_result:
  "last_result (foldl (\<lambda>s page. send chan (f page) s) s pages) = last_result s"
  by (induction pages arbitrary: s) (simp_all add: send_def)

lemma send_blocks_last_result: "last_result (send_blocks chan msg s) = last_result s"
  unfolding send_blocks_def by (rule foldl_send_last_result)

lemma eval_report_last_result:
  "last_result (snd (eval_report a chan result printed s)) =
   (if result = PyNone then last_result s else result)"
  by (simp add: eval_report_def send_blocks_last_result split: sum.splits)

lemma maybe_await_plain: "\<not> isawaitable v \<Longrightarrow> maybe_await v = Returns v"
  by (cases v) (simp_all add: maybe_await_def numeral_2_eq_2)

lemma maybe_await_two:
  "maybe_await (PyAwaitable r1 (Returns (PyAwaitable r2 (Returns v)))) = Returns v"
  by (simp add: maybe_await_def numeral_2_eq_2)

lemma maybe_await_one:
  "\<not> isawaitable v \<Longrightarrow> maybe_await (PyAwaitable r1 (Returns v)) = Returns v"
  by (cases v) (simp_all add: maybe_await_def numeral_2_eq_2)

subsection \<open>Redaction\<close>

text \<open>
  Claim C1 does not hold of the code. \<open>sanitize_output\<close> passes \<open>re.I\<close> where \<open>re.sub\<close>
  takes \<open>count\<close>, so that at most two occurrences are replaced and the case of the letters
  matters: of three occurrences of the token the third is transmitted, and the token in
  capitals is transmitted untouched, with no placeholder.
\<close>

theorem sanitize_output_leaks:
  "sanitize_output \<lparr>token = Some (str ''tok''), session_token = None\<rparr> (str ''tok tok tok'') =
     Inr (str ''[EXPUNGED] [EXPUNGED] tok'') \<and>
   sanitize_output \<lparr>token = Some (str ''tok''), session_token = None\<rparr> (str ''TOK'') =
     Inr (str ''TOK'')"
  by (simp add: sanitize_output_def re_sub_escaped_def re_I_def str_def)

subsection \<open>The owner check and the shutdown command\<close>

text \<open>
  Claim C2. A message whose sender is not the configured owner leaves the state as it
  was, whatever its content: nothing is sent and the connection is not closed. When the
  owner sends the prefix followed by \<open>shutdown\<close>, for a prefix without whitespace (such as
  \<open>!\<close>, giving \<open>!shutdown\<close>), the handler sends exactly one reply and then closes the
  connection.
\<close>

theorem on_message_owner_only:
  "(author_id ev \<noteq> owner_id cfg \<longrightarrow> on_message py cfg ev s = (Completed, s)) \<and>
   (author_id ev = owner_id cfg \<and> (\<forall>c\<in>set (PREFIX cfg). \<not> isspace c) \<and>
    content ev = Some (PREFIX cfg @ str ''shutdown'') \<longrightarrow>
      on_message py cfg ev s =
        (Completed,
         s\<lparr>actions := actions s @
              [Send (channel_id ev) (smiley @ [10] @ str ''Shutting down...'' @ [10] @ smiley),
               Close]\<rparr>))"
  using on_message_not_owner [of ev cfg py s] on_message_shutdown [of ev cfg py s]
  by (simp add: close_def send_def)

theorem on_message_owner_only_witness:
  "on_message \<lparr>exec_def = \<lambda>src env. Defines [] Never, eval_expr = \<lambda>src env. Never\<rparr>
     \<lparr>PREFIX = str ''!'', owner_id = str ''owner'', auth = \<lparr>token = Some (str ''tok''), session_token = None\<rparr>\<rparr>
     \<lparr>author_id = str ''guest'', content = Some (str ''!shutdown''), channel_id = str ''general''\<rparr>
     \<lparr>last_result = PyNone, actions = []\<rparr> =
     (Completed, \<lparr>last_result = PyNone, actions = []\<rparr>) \<and>
   on_message \<lparr>exec_def = \<lambda>src env. Defines [] Never, eval_expr = \<lambda>src env. Never\<rparr>
     \<lparr>PREFIX = str ''!'', owner_id = str ''owner'', auth = \<lparr>token = Some (str ''tok''), session_token = None\<rparr>\<rparr>
     \<lparr>author_id = str ''owner'', content = Some (str ''!shutdown''), channel_id = str ''general''\<rparr>
     \<lparr>last_result = PyNone, actions = []\<rparr> =
     (Completed,
      \<lparr>last_result = PyNone,
       actions = [Send (str ''general'') (smiley @ [10] @ str ''Shutting down...'' @ [10] @ smiley),
                  Close]\<rparr>)"
  using on_message_owner_only
    [of "\<lparr>author_id = str ''guest'', content = Some (str ''!shutdown''), channel_id = str ''general''\<rparr>"
        "\<lparr>PREFIX = str ''!'', owner_id = str ''owner'', auth = \<lparr>token = Some (str ''tok''), session_token = None\<rparr>\<rparr>"
        "\<lparr>exec_def = \<lambda>src env. Defines [] Never, eval_expr = \<lambda>src env. Never\<rparr>"
        "\<lparr>last_result = PyNone, actions = []\<rparr>"]
    on_message_owner_only
    [of "\<lparr>author_id = str ''owner'', content = Some (str ''!shutdown''), channel_id = str ''general''\<rparr>"
        "\<lparr>PREFIX = str ''!'', owner_id = str ''owner'', auth = \<lparr>token = Some (str ''tok''), session_token = None\<rparr>\<rparr>"
        "\<lparr>exec_def = \<lambda>src env. Defines [] Never, eval_expr = \<lambda>src env. Never\<rparr>"
        "\<lparr>last_result = PyNone, actions = []\<rparr>"]
  by (simp add: str_def isspace_def)

subsection \<open>The stored last result\<close>

text \<open>
  Claim C3, as amended. \<open>eval\<close> leaves the stored last result as it was when the body does
  not compile, when the call of the compiled function raises, and when the call returns
  \<open>None\<close>; it stores the returned value when the call returns anything else. \<open>debug\<close>
  leaves the stored last result as it was when compiling, evaluating or awaiting raises,
  and stores the value on every success, \<open>None\<close> included.
\<close>

theorem last_result_update:
  "(exec_def py (to_compile (cleanup_code body)) (get_environment s ev) = ExecRaises e \<longrightarrow>
      last_result (snd (eval_dev py a chan body ev s)) = last_result s) \<and>
   (exec_def py (to_compile (cleanup_code body)) (get_environment s ev) = Defines out (Raises e) \<longrightarrow>
      last_result (snd (eval_dev py a chan body ev s)) = last_result s) \<and>
   (exec_def py (to_compile (cleanup_code body)) (get_environment s ev) = Defines out (Returns v) \<longrightarrow>
      last_result (snd (eval_dev py a chan body ev s)) = (if v = PyNone then last_result s else v)) \<and>
   (debug_result py (cleanup_code body) (get_environment s ev) = Raises e \<longrightarrow>
      last_result (snd (debug py a chan body ev s)) = last_result s) \<and>
   (debug_result py (cleanup_code body) (get_environment s ev) = Returns v \<longrightarrow>
      last_result (snd (debug py a chan body ev s)) = v)"
proof (intro conjI impI)
  assume "exec_def py (to_compile (cleanup_code body)) (get_environment s ev) = ExecRaises e"
  then show "last_result (snd (eval_dev py a chan body ev s)) = last_result s"
    by (cases e) (simp_all add: eval_dev_def send_blocks_last_result)
next
  assume "exec_def py (to_compile (cleanup_code body)) (get_environment s ev) = Defines out (Raises e)"
  then show "last_result (snd (eval_dev py a chan body ev s)) = last_result s"
    by (cases e) (simp_all add: eval_dev_def eval_report_last_result)
next
  assume "exec_def py (to_compile (cleanup_code body)) (get_environment s ev) = Defines out (Returns v)"
  then show "last_result (snd (eval_dev py a chan body ev s)) = (if v = PyNone then last_result s else v)"
    by (simp add: eval_dev_def eval_report_last_result)
next
  assume "debug_result py (cleanup_code body) (get_environment s ev) = Raises e"
  then show "last_result (snd (debug py a chan body ev s)) = last_result s"
    by (cases e) (simp_all add: debug_def send_blocks_last_result)
next
  assume "debug_result py (cleanup_code body) (get_environment s ev) = Returns v"
  then show "last_result (snd (debug py a chan body ev s)) = v"
    by (simp add: debug_def Let_def send_blocks_last_result split: sum.splits)
qed


text \<open>
  Instances: a body with a syntax error, a body that raises, a body that returns a value,
  an expression that raises and an expression with a value, on a state whose last result
  is \<open>old\<close>.
\<close>

theorem last_result_update_witness:
  "last_result (snd (eval_dev
      \<lparr>exec_def = \<lambda>src env. ExecRaises (SyntaxError (SyntaxErr (str ''SyntaxError'') None 0 (str ''invalid syntax'')) []),
       eval_expr = \<lambda>src env. Never\<rparr>
      \<lparr>token = Some (str ''tok''), session_token = None\<rparr> (str ''general'') (str ''1 +'')
      \<lparr>author_id = str ''owner'', content = Some (str ''!eval 1 +''), channel_id = str ''general''\<rparr>
      \<lparr>last_result = PyObj (str ''old''), actions = []\<rparr>)) = PyObj (str ''old'') \<and>
   last_result (snd (eval_dev
      \<lparr>exec_def = \<lambda>src env. Defines (str ''hi'') (Raises (Exception (str ''ZeroDivisionError''))),
       eval_expr = \<lambda>src env. Never\<rparr>
      \<lparr>token = Some (str ''tok''), session_token = None\<rparr> (str ''general'') (str ''1/0'')
      \<lparr>author_id = str ''owner'', content = Some (str ''!eval 1/0''), channel_id = str ''general''\<rparr>
      \<lparr>last_result = PyObj (str ''old''), actions = []\<rparr>)) = PyObj (str ''old'') \<and>
   last_result (snd (eval_dev
      \<lparr>exec_def = \<lambda>src env. Defines [] (Returns (PyObj (str ''2''))),
       eval_expr = \<lambda>src env. Never\<rparr>
      \<lparr>token = Some (str ''tok''), session_token = None\<rparr> (str ''general'') (str ''return 2'')
      \<lparr>author_id = str ''owner'', content = Some (str ''!eval return 2''), channel_id = str ''general''\<rparr>
      \<lparr>last_result = PyObj (str ''old''), actions = []\<rparr>)) = PyObj (str ''2'') \<and>
   last_result (snd (debug
      \<lparr>exec_def = \<lambda>src env. Defines [] Never,
       eval_expr = \<lambda>src env. Raises (Exception (str ''NameError''))\<rparr>
      \<lparr>token = Some (str ''tok''), session_token = None\<rparr> (str ''general'') (str ''x'')
      \<lparr>author_id = str ''owner'', content = Some (str ''!debug x''), channel_id = str ''general''\<rparr>
      \<lparr>last_result = PyObj (str ''old''), actions = []\<rparr>)) = PyObj (str ''old'') \<and>
   last_result (snd (debug
      \<lparr>exec_def = \<lambda>src env. Defines [] Never,
       eval_expr = \<lambda>src env. Returns PyNone\<rparr>
      \<lparr>token = Some (str ''tok''), session_token = None\<rparr> (str ''general'') (str ''None'')
      \<lparr>author_id = str ''owner'', content = Some (str ''!debug None''), channel_id = str ''general''\<rparr>
      \<lparr>last_result = PyObj (str ''old''), actions = []\<rparr>)) = PyNone"
  using
    last_result_update
      [of "\<lparr>exec_def = \<lambda>src env. ExecRaises (SyntaxError (SyntaxErr (str ''SyntaxError'') None 0 (str ''invalid syntax'')) []),
             eval_expr = \<lambda>src env. Never\<rparr>"
          "str ''1 +''" "\<lparr>last_result = PyObj (str ''old''), actions = []\<rparr>"
          "\<lparr>author_id = str ''owner'', content = Some (str ''!eval 1 +''), channel_id = str ''general''\<rparr>"
          "SyntaxError (SyntaxErr (str ''SyntaxError'') None 0 (str ''invalid syntax'')) []"
          "\<lparr>token = Some (str ''tok''), session_token = None\<rparr>" "str ''general''"]
    last_result_update
      [of "\<lparr>exec_def = \<lambda>src env. Defines (str ''hi'') (Raises (Exception (str ''ZeroDivisionError''))),
             eval_expr = \<lambda>src env. Never\<rparr>"
          "str ''1/0''" "\<lparr>last_result = PyObj (str ''old''), actions = []\<rparr>"
          "\<lparr>author_id = str ''owner'', content = Some (str ''!eval 1/0''), channel_id = str ''general''\<rparr>"
          "Exception (str ''ZeroDivisionError'')"
          "\<lparr>token = Some (str ''tok''), session_token = None\<rparr>" "str ''general''" "str ''hi''"]
    last_result_update
      [of "\<lparr>exec_def = \<lambda>src env. Defines [] (Returns (PyObj (str ''2''))),
             eval_expr = \<lambda>src env. Never\<rparr>"
          "str ''return 2''" "\<lparr>last_result = PyObj (str ''old''), actions = []\<rparr>"
          "\<lparr>author_id = str ''owner'', content = Some (str ''!eval return 2''), channel_id = str ''general''\<rparr>"
          _ "\<lparr>token = Some (str ''tok''), session_token = None\<rparr>" "str ''general''" "[]"
          "PyObj (str ''2'')"]
    last_result_update
      [of "\<lparr>exec_def = \<lambda>src env. Defines [] Never,
             eval_expr = \<lambda>src env. Raises (Exception (str ''NameError''))\<rparr>"
          "str ''x''" "\<lparr>last_result = PyObj (str ''old''), actions = []\<rparr>"
          "\<lparr>author_id = str ''owner'', content = Some (str ''!debug x''), channel_id = str ''general''\<rparr>"
          "Exception (str ''NameError'')"
          "\<lparr>token = Some (str ''tok''), session_token = None\<rparr>" "str ''general''"]
    last_result_update
      [of "\<lparr>exec_def = \<lambda>src env. Defines [] Never,
             eval_expr = \<lambda>src env. Returns PyNone\<rparr>"
          "str ''None''" "\<lparr>last_result = PyObj (str ''old''), actions = []\<rparr>"
          "\<lparr>author_id = str ''owner'', content = Some (str ''!debug None''), channel_id = str ''general''\<rparr>"
          _ "\<lparr>token = Some (str ''tok''), session_token = None\<rparr>" "str ''general''" _
          "PyNone"]
  by (simp add: debug_result_def maybe_await_plain)

text \<open>
  The claim as it was stated fails for \<open>eval\<close>: a body that runs to its end and returns
  nothing is a success (the handler completes and sends what was printed), and the stored
  last result is still \<open>old\<close>.
\<close>

theorem last_result_update_counterexample:
  "eval_dev
      \<lparr>exec_def = \<lambda>src env. Defines (str ''hi'') (Returns PyNone), eval_expr = \<lambda>src env. Never\<rparr>
      \<lparr>token = Some (str ''tok''), session_token = None\<rparr> (str ''general'') (str ''print(1)'')
      \<lparr>author_id = str ''owner'', content = Some (str ''!eval print(1)''), channel_id = str ''general''\<rparr>
      \<lparr>last_result = PyObj (str ''old''), actions = []\<rparr> =
   (Completed,
    \<lparr>last_result = PyObj (str ''old''),
     actions = [Send (str ''general'')
                  (smiley @ [10] @ backticks @ str ''py'' @ [10] @ str ''hi'' @ [10] @ backticks @
                   [10] @ smiley)]\<rparr>)"
  by (simp add: eval_dev_def eval_report_def sanitize_output_def re_sub_escaped_def re_I_def
      send_blocks_def send_def pagify_eval)

subsection \<open>The two awaits of \<open>debug\<close>\<close>

text \<open>
  Claim C4. \<open>maybe_await\<close> returns a value that is not awaitable unchanged. Of a value
  with two awaitable layers it gives the value inside; of a value with three layers it
  gives the third layer, still awaitable and not awaited, whatever awaiting it would do
  (even if it would never finish). \<open>debug\<close> takes this result: when the expression
  evaluates to such a value, the result of \<open>debug\<close> is the value below the second layer,
  and it is stored as the last result.
\<close>

theorem debug_double_await:
  "(\<not> isawaitable v \<longrightarrow> maybe_await v = Returns v) \<and>
   (\<not> isawaitable v \<longrightarrow>
      maybe_await (PyAwaitable r1 (Returns (PyAwaitable r2 (Returns v)))) = Returns v) \<and>
   maybe_await (PyAwaitable r1 (Returns (PyAwaitable r2 (Returns (PyAwaitable r3 oc))))) =
     Returns (PyAwaitable r3 oc) \<and>
   (eval_expr py (cleanup_code body) (get_environment s ev) =
      Returns (PyAwaitable r1 (Returns (PyAwaitable r2 (Returns w)))) \<longrightarrow>
    debug_result py (cleanup_code body) (get_environment s ev) = Returns w \<and>
    last_result (snd (debug py a chan body ev s)) = w)"
proof (intro conjI impI)
  assume e: "eval_expr py (cleanup_code body) (get_environment s ev) =
      Returns (PyAwaitable r1 (Returns (PyAwaitable r2 (Returns w))))"
  then show r: "debug_result py (cleanup_code body) (get_environment s ev) = Returns w"
    by (simp add: debug_result_def maybe_await_two)
  then show "last_result (snd (debug py a chan body ev s)) = w"
    by (simp add: debug_def Let_def send_blocks_last_result split: sum.splits)
qed (simp_all add: maybe_await_plain maybe_await_two)

text \<open>
  Instances: the plain value \<open>42\<close>, alone and under two layers, and an expression whose
  value has three layers, the third of which would never finish; \<open>debug\<close> completes and
  stores that third layer.
\<close>

theorem debug_double_await_witness:
  "maybe_await (PyObj (str ''42'')) = Returns (PyObj (str ''42'')) \<and>
   maybe_await (PyAwaitable (str ''<coroutine a>'')
      (Returns (PyAwaitable (str ''<coroutine b>'') (Returns (PyObj (str ''42'')))))) =
     Returns (PyObj (str ''42'')) \<and>
   debug
      \<lparr>exec_def = \<lambda>src env. Defines [] Never,
       eval_expr = \<lambda>src env. Returns (PyAwaitable (str ''<coroutine a>'')
          (Returns (PyAwaitable (str ''<coroutine b>'')
             (Returns (PyAwaitable (str ''<coroutine c>'') Never)))))\<rparr>
      \<lparr>token = Some (str ''tok''), session_token = None\<rparr> (str ''general'') (str ''a()'')
      \<lparr>author_id = str ''owner'', content = Some (str ''!debug a()''), channel_id = str ''general''\<rparr>
      \<lparr>last_result = PyNone, actions = []\<rparr> =
   (Completed,
    \<lparr>last_result = PyAwaitable (str ''<coroutine c>'') Never,
     actions = [Send (str ''general'')
                  (smiley @ [10] @ backticks @ str ''py'' @ [10] @ str ''<coroutine c>'' @ [10] @
                   backticks @ [10] @ smiley)]\<rparr>)"
  using debug_double_await
    [of "PyObj (str ''42'')" "str ''<coroutine a>''" "str ''<coroutine b>''" "str ''<coroutine c>''" Never
      "\<lparr>exec_def = \<lambda>src env. Defines [] Never,
       eval_expr = \<lambda>src env. Returns (PyAwaitable (str ''<coroutine a>'')
          (Returns (PyAwaitable (str ''<coroutine b>'')
             (Returns (PyAwaitable (str ''<coroutine c>'') Never)))))\<rparr>"
      "str ''a()''" "\<lparr>last_result = PyNone, actions = []\<rparr>"
      "\<lparr>author_id = str ''owner'', content = Some (str ''!debug a()''), channel_id = str ''general''\<rparr>"
      "PyAwaitable (str ''<coroutine c>'') Never"
      "\<lparr>token = Some (str ''tok''), session_token = None\<rparr>" "str ''general''"]
  by (simp add: debug_def sanitize_output_def re_sub_escaped_def re_I_def
      send_blocks_def send_def pagify_eval)

subsection \<open>The check of the prefix\<close>

text \<open>
  Claim C9 does not hold of the code. The check counts the whitespace-separated words of
  the prefix, so a prefix with whitespace at either end has one word and passes, although
  it contains whitespace: with \<open>REVOLTBOT_PREFIX\<close> set to an exclamation mark followed
  by a space, loading the module does not raise.
\<close>

theorem load_prefix_trailing_space:
  "load_prefix [str ''REVOLTBOT_PREFIX'' \<mapsto> str ''! ''] = Inr (str ''! '') \<and>
   isspace (last (str ''! ''))"
  by (simp add: load_prefix_def check_prefix_def split_def str_def isspace_def)

subsection \<open>Commands without a body\<close>

text \<open>
  Claim C10. When the owner sends the \<open>eval\<close> or the \<open>debug\<close> command token and nothing
  else, the handler returns with the state unchanged: no reply is sent and the stored
  last result is kept. The result does not depend on the interpreter, which is not
  consulted. This holds for every prefix.
\<close>

theorem on_message_empty_body:
  "on_message py cfg
     \<lparr>author_id = owner_id cfg, content = Some (PREFIX cfg @ str ''eval''), channel_id = chan\<rparr> s =
     (Completed, s) \<and>
   on_message py cfg
     \<lparr>author_id = owner_id cfg, content = Some (PREFIX cfg @ str ''debug''), channel_id = chan\<rparr> s =
     (Completed, s)"
proof -
  have n: "str ''eval'' \<noteq> []" "str ''debug'' \<noteq> []" by (simp_all add: str_def)
  show ?thesis
    using on_message_bare_command [OF _ _ n(1) letters_no_space(3) command_names_distinct(2,3)]
      on_message_bare_command [OF _ _ n(2) letters_no_space(4) command_names_distinct(4,5)]
    by simp
qed

theorem on_message_empty_body_witness:
  "on_message \<lparr>exec_def = \<lambda>src env. Defines [] (Returns (PyObj (str ''1''))),
                eval_expr = \<lambda>src env. Returns (PyObj (str ''1''))\<rparr>
     \<lparr>PREFIX = str ''!'', owner_id = str ''owner'', auth = \<lparr>token = Some (str ''tok''), session_token = None\<rparr>\<rparr>
     \<lparr>author_id = str ''owner'', content = Some (str ''!eval''), channel_id = str ''general''\<rparr>
     \<lparr>last_result = PyObj (str ''old''), actions = []\<rparr> =
   (Completed, \<lparr>last_result = PyObj (str ''old''), actions = []\<rparr>)"
  using on_message_empty_body
    [of "\<lparr>exec_def = \<lambda>src env. Defines [] (Returns (PyObj (str ''1''))),
                eval_expr = \<lambda>src env. Returns (PyObj (str ''1''))\<rparr>"
        "\<lparr>PREFIX = str ''!'', owner_id = str ''owner'', auth = \<lparr>token = Some (str ''tok''), session_token = None\<rparr>\<rparr>"
        "str ''general''" "\<lparr>last_result = PyObj (str ''old''), actions = []\<rparr>"]
  by (simp add: str_def)

end
